theory Spec2Isabelle
  imports Main "HOL-Library.Sublist"
begin

section \<open>Python strings\<close>

text \<open>
  Strings are lists of characters. \<open>strip\<close> is Python's \<^verbatim>\<open>str.strip()\<close> (the ASCII
  characters for which \<^verbatim>\<open>str.isspace\<close> holds are removed from both ends), \<open>lower\<close> is
  \<^verbatim>\<open>str.lower()\<close> on ASCII letters, \<open>py_in sub s\<close> is \<^verbatim>\<open>sub in s\<close>, and \<open>truthy\<close> is
  the truth value Python gives a string.
\<close>

definition is_space :: "char \<Rightarrow> bool" where
  "is_space c = (c \<in> set [CHR '' '', CHR 0x09, CHR 0x0A, CHR 0x0B, CHR 0x0C, CHR 0x0D,
                            CHR 0x1C, CHR 0x1D, CHR 0x1E, CHR 0x1F])"

definition strip :: "string \<Rightarrow> string" where
  "strip s = rev (dropWhile is_space (rev (dropWhile is_space s)))"

definition lower_char :: "char \<Rightarrow> char" where
  "lower_char c =
     (case map_of (zip ''ABCDEFGHIJKLMNOPQRSTUVWXYZ'' ''abcdefghijklmnopqrstuvwxyz'') c of
        None \<Rightarrow> c
      | Some d \<Rightarrow> d)"

definition lower :: "string \<Rightarrow> string" where
  "lower s = map lower_char s"

fun py_in :: "string \<Rightarrow> string \<Rightarrow> bool" where
  "py_in sub [] = (sub = [])"
| "py_in sub (c # cs) = (prefix sub (c # cs) \<or> py_in sub cs)"

definition truthy :: "string \<Rightarrow> bool" where
  "truthy s = (s \<noteq> [])"

text \<open>An attribute read returns a string or Python's \<^verbatim>\<open>None\<close>; \<^verbatim>\<open>None\<close> is falsy.\<close>

definition truthy_opt :: "string option \<Rightarrow> bool" where
  "truthy_opt a = (case a of None \<Rightarrow> False | Some s \<Rightarrow> truthy s)"

section \<open>stream.py: the listing page and its job elements\<close>

text \<open>
  What the driver reports for one element of class \<^verbatim>\<open>opening\<close>:
  \<open>anchor\<close> is the first \<^verbatim>\<open>a\<close> element below it (its text and its \<^verbatim>\<open>href\<close>
  attribute), \<open>None\<close> when \<^verbatim>\<open>find_element\<close> raises; \<open>location_elem\<close> and
  \<open>department_elem\<close> are the texts of the elements of those classes, \<open>None\<close> when there
  is none.
\<close>

record job_elem =
  anchor :: "(string \<times> string option) option"
  location_elem :: "string option"
  department_elem :: "string option"

record zjob =
  Title :: string
  Location :: string
  Department :: string
  Link :: string

text \<open>A candidate for the next-page link, as \<^verbatim>\<open>handle_pagination\<close> reads it.\<close>

record next_link =
  is_displayed :: bool
  link_class :: string
  click_ok :: bool

record zpage =
  openings :: "job_elem list"
  next_links :: "next_link list"

text \<open>
  The location of a job element (stream.py lines 113 to 120): the default unless the
  element of class \<^verbatim>\<open>location\<close> exists and its trimmed text is non-empty, shorter than
  50 characters and free of the word footer.
\<close>

definition extract_location :: "job_elem \<Rightarrow> string" where
  "extract_location job =
     (case location_elem job of
        None \<Rightarrow> ''Not specified''
      | Some t \<Rightarrow>
          (let location_text = strip t in
           if truthy location_text \<and> length location_text < 50
              \<and> \<not> py_in ''footer'' (lower location_text)
           then location_text else ''Not specified''))"

definition extract_department :: "job_elem \<Rightarrow> string" where
  "extract_department job =
     (case department_elem job of None \<Rightarrow> ''Not specified'' | Some t \<Rightarrow> strip t)"

text \<open>\<^verbatim>\<open>any(existing_job["Title"] == title and existing_job["Link"] == link ...)\<close>\<close>

definition is_duplicate :: "zjob list \<Rightarrow> string \<Rightarrow> string \<Rightarrow> bool" where
  "is_duplicate jobs_data title link =
     list_ex (\<lambda>existing_job. Title existing_job = title \<and> Link existing_job = link) jobs_data"

text \<open>
  One pass of the loop body of \<^verbatim>\<open>extract_job_listings_zscaler\<close> (lines 107 to 145):
  a job element without an anchor raises and is skipped; otherwise the record is
  appended when title and link are both non-blank and not already in \<open>jobs_data\<close>.
\<close>

definition extract_one :: "zjob list \<Rightarrow> job_elem \<Rightarrow> zjob list" where
  "extract_one jobs_data job =
     (case anchor job of
        None \<Rightarrow> jobs_data
      | Some (a_text, href) \<Rightarrow>
          (let title = strip a_text;
               location = extract_location job;
               department = extract_department job
           in case href of
                None \<Rightarrow> jobs_data
              | Some link \<Rightarrow>
                  if truthy title \<and> truthy (strip title) \<and> truthy link \<and> truthy (strip link)
                  then (if \<not> is_duplicate jobs_data title link
                        then jobs_data @ [\<lparr>Title = title, Location = location,
                                          Department = department, Link = link\<rparr>]
                        else jobs_data)
                  else jobs_data))"

definition extract_job_listings_zscaler :: "zpage \<Rightarrow> zjob list" where
  "extract_job_listings_zscaler page = foldl extract_one [] (openings page)"

text \<open>
  The browser during pagination is the list of listing pages still ahead, the current one
  first; past the last page the driver shows a page with no job element and no link.
\<close>

definition current_page :: "zpage list \<Rightarrow> zpage" where
  "current_page driver =
     (case driver of [] \<Rightarrow> \<lparr>openings = [], next_links = []\<rparr> | p # _ \<Rightarrow> p)"

text \<open>
  The search for the next-page link (lines 174 to 183): the first candidate that is
  displayed and whose class does not contain disabled.
\<close>

definition find_next_button :: "zpage \<Rightarrow> next_link option" where
  "find_next_button page =
     find (\<lambda>button. is_displayed button \<and> \<not> py_in ''disabled'' (link_class button))
          (next_links page)"

text \<open>
  \<^verbatim>\<open>handle_pagination\<close> (lines 153 to 204). A failing click ends the loop; after a click the
  driver is on the following page, and the wait for an element of class \<^verbatim>\<open>opening\<close>
  times out, ending the loop, when that page has none.
\<close>

function handle_pagination_loop :: "zpage list \<Rightarrow> nat \<Rightarrow> nat \<Rightarrow> zjob list \<Rightarrow> zjob list" where
  "handle_pagination_loop driver max_pages page all_jobs =
     (if page \<le> max_pages then
        (let jobs_on_page = extract_job_listings_zscaler (current_page driver);
             all_jobs' = all_jobs @ jobs_on_page
         in case find_next_button (current_page driver) of
              None \<Rightarrow> all_jobs'
            | Some next_button \<Rightarrow>
                if \<not> click_ok next_button then all_jobs'
                else if openings (current_page (tl driver)) = [] then all_jobs'
                else handle_pagination_loop (tl driver) max_pages (page + 1) all_jobs')
      else all_jobs)"
  by pat_completeness auto
termination
  by (relation "measure (\<lambda>(driver, max_pages, page, all_jobs). Suc max_pages - page)") auto

definition handle_pagination :: "zpage list \<Rightarrow> nat \<Rightarrow> zjob list" where
  "handle_pagination driver max_pages = handle_pagination_loop driver max_pages 1 []"

text \<open>The identity pair of a record.\<close>

definition job_key :: "zjob \<Rightarrow> string \<times> string" where
  "job_key j = (Title j, Link j)"

text \<open>
  The identity pair a job element contributes to a pass, if it contributes a record:
  the conditions of line 129 on the trimmed anchor text and the \<^verbatim>\<open>href\<close>.
\<close>

definition card_key :: "job_elem \<Rightarrow> (string \<times> string) option" where
  "card_key job =
     (case anchor job of
        None \<Rightarrow> None
      | Some (a_text, href) \<Rightarrow>
          (case href of
             None \<Rightarrow> None
           | Some link \<Rightarrow>
               if truthy (strip a_text) \<and> truthy (strip (strip a_text))
                  \<and> truthy link \<and> truthy (strip link)
               then Some (strip a_text, link) else None))"

text \<open>A job element with an anchor and nothing else, and a displayed, enabled link.\<close>

definition card :: "string \<Rightarrow> string \<Rightarrow> job_elem" where
  "card t l = \<lparr>anchor = Some (t, Some l), location_elem = None, department_elem = None\<rparr>"

definition enabled_next :: next_link where
  "enabled_next = \<lparr>is_displayed = True, link_class = ''next'', click_ok = True\<rparr>"

text \<open>
  The two-page listing of the scenario: ten cards, then four, the card titled SWE II
  with link /job/1 on both pages.
\<close>

definition scenario_page1 :: zpage where
  "scenario_page1 =
     \<lparr>openings = [card ''SWE II'' ''/job/1'', card ''SWE'' ''/job/2'', card ''SDE'' ''/job/3'',
                  card ''PM'' ''/job/4'', card ''TPM'' ''/job/5'', card ''SRE'' ''/job/6'',
                  card ''QA'' ''/job/7'', card ''EM'' ''/job/8'', card ''UX'' ''/job/9'',
                  card ''DS'' ''/job/10''],
      next_links = [enabled_next]\<rparr>"

definition scenario_page2 :: zpage where
  "scenario_page2 =
     \<lparr>openings = [card ''SWE II'' ''/job/1'', card ''ML'' ''/job/11'', card ''SA'' ''/job/12'',
                  card ''CSM'' ''/job/13''],
      next_links = []\<rparr>"

definition scenario_site :: "zpage list" where
  "scenario_site = [scenario_page1, scenario_page2]"

text \<open>A page whose job elements differ in letter case only, followed by an exact repeat.\<close>

definition case_page :: zpage where
  "case_page =
     \<lparr>openings = [card ''SWE II'' ''/job/1'', card ''swe ii'' ''/job/1'',
                  card ''SWE II'' ''/JOB/1'', card ''SWE II'' ''/job/1''],
      next_links = []\<rparr>"

section \<open>stream.py: the scroll loop\<close>

datatype py_error = DriverError | TypeError

text \<open>
  \<^verbatim>\<open>scroll_to_load_all\<close> (lines 33 to 89). The page is what the driver reports: the
  scroll height read before the loop, and for the iteration with \<^verbatim>\<open>scrolls = i\<close> the pair
  of \<^verbatim>\<open>new_height\<close> and \<^verbatim>\<open>job_count\<close>; \<open>None\<close> is a driver call that raises, which
  the function does not catch. Clicking the load-more buttons is inside its own
  \<^verbatim>\<open>try\<close> and changes no variable of the loop. The function returns
  \<^verbatim>\<open>last_job_count\<close>, here \<open>found\<close>; \<open>iterations\<close> counts the readings taken in the
  loop and \<open>stall_count\<close> is \<^verbatim>\<open>consecutive_no_change\<close> at exit.
\<close>

record scroll_result =
  iterations :: nat
  stall_count :: nat
  found :: nat

function scroll_loop ::
  "(nat \<Rightarrow> (int \<times> nat) option) \<Rightarrow> nat \<Rightarrow> nat \<Rightarrow> int \<Rightarrow> nat \<Rightarrow> nat \<Rightarrow> py_error + scroll_result" where
  "scroll_loop readings max_scrolls scrolls last_height last_job_count consecutive_no_change =
     (if scrolls < max_scrolls then
        (case readings scrolls of
           None \<Rightarrow> Inl DriverError
         | Some (new_height, job_count) \<Rightarrow>
             if new_height = last_height \<and> job_count = last_job_count then
               (if consecutive_no_change + 1 \<ge> 3
                then Inr \<lparr>iterations = scrolls + 1, stall_count = consecutive_no_change + 1,
                          found = last_job_count\<rparr>
                else scroll_loop readings max_scrolls (scrolls + 1) new_height job_count
                       (consecutive_no_change + 1))
             else scroll_loop readings max_scrolls (scrolls + 1) new_height job_count 0)
      else Inr \<lparr>iterations = scrolls, stall_count = consecutive_no_change,
                found = last_job_count\<rparr>)"
  by pat_completeness auto
termination
  by (relation "measure (\<lambda>(readings, max_scrolls, scrolls, h, j, c). max_scrolls - scrolls)")
     auto

definition scroll_to_load_all ::
  "int option \<Rightarrow> (nat \<Rightarrow> (int \<times> nat) option) \<Rightarrow> nat \<Rightarrow> py_error + scroll_result" where
  "scroll_to_load_all initial_height readings max_scrolls =
     (case initial_height of
        None \<Rightarrow> Inl DriverError
      | Some last_height \<Rightarrow> scroll_loop readings max_scrolls 0 last_height 0 0)"

text \<open>
  The stability rule in the words of the specification, for a page whose readings are
  \<open>r 0\<close>, \<open>r 1\<close>, ...: the reading an iteration is compared with, and the stall count
  after \<open>n\<close> iterations (one more when both values are unchanged, 0 after any change).
\<close>

definition previous_reading :: "int \<Rightarrow> (nat \<Rightarrow> int \<times> nat) \<Rightarrow> nat \<Rightarrow> int \<times> nat" where
  "previous_reading h0 r i = (if i = 0 then (h0, 0) else r (i - 1))"

fun spec_stall :: "int \<Rightarrow> (nat \<Rightarrow> int \<times> nat) \<Rightarrow> nat \<Rightarrow> nat" where
  "spec_stall h0 r 0 = 0"
| "spec_stall h0 r (Suc n) = (if r n = previous_reading h0 r n then spec_stall h0 r n + 1 else 0)"

text \<open>
  The scenario's readings, heights 100, 200, 200, 200 with 5, 8, 8, 8 jobs, on a page
  that stays as it is afterwards.
\<close>

definition scenario_readings :: "nat \<Rightarrow> int \<times> nat" where
  "scenario_readings i = (if i = 0 then (100, 5) else (200, 8))"

definition scenario_driver :: "nat \<Rightarrow> (int \<times> nat) option" where
  "scenario_driver i = Some (scenario_readings i)"

section \<open>stream.py: the detail page\<close>

text \<open>
  An element met by \<^verbatim>\<open>get_section_text\<close> while it walks the siblings: its tag name, its
  text, the text of the first \<^verbatim>\<open>strong\<close> element below it (\<open>None\<close> when
  \<^verbatim>\<open>find_element\<close> raises) and what \<^verbatim>\<open>get_attribute("class")\<close> returns. WebDriver
  reads the class through the element's \<^verbatim>\<open>className\<close> property, a string that is empty
  when no class is set.
\<close>

record block =
  tag_name :: string
  block_text :: string
  first_strong :: "string option"
  class_attr :: string

text \<open>
  A \<^verbatim>\<open>strong\<close> element of the detail page: its text and the siblings that follow its
  parent element, in document order (what \<^verbatim>\<open>parentElement\<close> and the repeated
  \<^verbatim>\<open>nextElementSibling\<close> return).
\<close>

record strong_elem =
  strong_text :: string
  following :: "block list"

text \<open>The \<^verbatim>\<open>while True\<close> loop of \<^verbatim>\<open>get_section_text\<close> (lines 342 to 364), giving \<^verbatim>\<open>text_list\<close>.\<close>

fun section_walk :: "block list \<Rightarrow> string list" where
  "section_walk [] = []"
| "section_walk (next_elem # rest) =
     (if lower (tag_name next_elem) = ''p''
         \<and> (case first_strong next_elem of
               None \<Rightarrow> False
             | Some t \<Rightarrow>
                 (let strong_text = lower (strip t)
                  in py_in ''qualifications'' strong_text \<or> py_in ''what'' strong_text))
      then []
      else if lower (tag_name next_elem) = ''div'' \<and> py_in ''content-nav'' (class_attr next_elem)
      then []
      else strip (block_text next_elem) # section_walk rest)"

text \<open>Python's \<^verbatim>\<open>"\n".join\<close> of a list of strings.\<close>

fun join_lines :: "string list \<Rightarrow> string" where
  "join_lines [] = []"
| "join_lines [t] = t"
| "join_lines (t # u # ts) = t @ [CHR 0x0A] @ join_lines (u # ts)"

definition get_section_text :: "strong_elem \<Rightarrow> string" where
  "get_section_text heading_element =
     join_lines (filter truthy (section_walk (following heading_element)))"

text \<open>The two heading tests of \<^verbatim>\<open>extract_job_descriptions\<close> (lines 418 to 426).\<close>

definition is_min_heading :: "strong_elem \<Rightarrow> bool" where
  "is_min_heading strong =
     (let heading_text = lower (strip (strong_text strong))
      in py_in (''what we'' @ [CHR 0x27] @ ''re looking for'') heading_text
         \<or> py_in ''minimum qualifications'' heading_text)"

definition is_pref_heading :: "strong_elem \<Rightarrow> bool" where
  "is_pref_heading strong =
     (let heading_text = lower (strip (strong_text strong))
      in py_in ''what will make you stand out'' heading_text
         \<or> py_in ''preferred qualifications'' heading_text)"

text \<open>
  The loop over the \<^verbatim>\<open>strong\<close> elements (lines 413 to 428): the pair of
  \<^verbatim>\<open>min_qual_text\<close> and \<^verbatim>\<open>pref_qual_text\<close> after the loop.
\<close>

definition scan_step :: "string \<times> string \<Rightarrow> strong_elem \<Rightarrow> string \<times> string" where
  "scan_step quals strong =
     (if is_min_heading strong then (get_section_text strong, snd quals)
      else if is_pref_heading strong then (fst quals, get_section_text strong)
      else quals)"

definition scan_headings :: "strong_elem list \<Rightarrow> string \<times> string" where
  "scan_headings strong_elements = foldl scan_step ([], []) strong_elements"

text \<open>
  The data frame: its rows, and whether the two qualification columns exist. A row's
  qualification fields mean something only when the column exists.
\<close>

record detail_row = zjob +
  MinimumQualifications :: string
  PreferredQualifications :: string

record dataframe =
  rows :: "detail_row list"
  has_min_column :: bool
  has_pref_column :: bool

text \<open>
  The web as the enricher meets it: whether the Chrome driver starts, and for a link the
  \<^verbatim>\<open>strong\<close> elements of its page, \<open>None\<close> when opening or reading the page raises.
\<close>

record web =
  chrome_starts :: bool
  detail_page :: "string \<Rightarrow> strong_elem list option"

text \<open>
  The state of \<^verbatim>\<open>extract_job_descriptions\<close>: \<^verbatim>\<open>result_df\<close>, and the links handed to
  \<^verbatim>\<open>driver.get\<close> so far.
\<close>

record enrich_state =
  result_rows :: "detail_row list"
  navigated :: "string list"

text \<open>
  The \<^verbatim>\<open>for i in range(max_jobs)\<close> loop (lines 400 to 434) inside the one \<^verbatim>\<open>try\<close> of
  the function: an exception leaves the loop for the handler of line 436, which logs
  and lets the function return \<^verbatim>\<open>result_df\<close> as it is.
\<close>

function enrich_from :: "web \<Rightarrow> nat \<Rightarrow> nat \<Rightarrow> enrich_state \<Rightarrow> enrich_state" where
  "enrich_from w max_jobs i st =
     (if i < max_jobs then
        (let link = Link (result_rows st ! i);
             st' = st\<lparr>navigated := navigated st @ [link]\<rparr>
         in case detail_page w link of
              None \<Rightarrow> st'
            | Some strong_elements \<Rightarrow>
                (let quals = scan_headings strong_elements
                 in enrich_from w max_jobs (Suc i)
                      (st'\<lparr>result_rows := (result_rows st)
                             [i := (result_rows st ! i)
                                     \<lparr>MinimumQualifications := fst quals,
                                      PreferredQualifications := snd quals\<rparr>]\<rparr>)))
      else st)"
  by pat_completeness auto
termination
  by (relation "measure (\<lambda>(w, max_jobs, i, st). max_jobs - i)") auto

definition initial_rows :: "dataframe \<Rightarrow> detail_row list" where
  "initial_rows df =
     map (\<lambda>r. r\<lparr>MinimumQualifications :=
                   (if has_min_column df then MinimumQualifications r else []),
                 PreferredQualifications :=
                   (if has_pref_column df then PreferredQualifications r else [])\<rparr>)
         (rows df)"

text \<open>\<^verbatim>\<open>max_jobs\<close> after lines 374 to 377.\<close>

definition effective_max_jobs :: "dataframe \<Rightarrow> int option \<Rightarrow> nat" where
  "effective_max_jobs df max_jobs_arg =
     (case max_jobs_arg of
        None \<Rightarrow> length (rows df)
      | Some m \<Rightarrow> nat (min m (int (length (rows df)))))"

definition extract_job_descriptions :: "web \<Rightarrow> dataframe \<Rightarrow> int option \<Rightarrow> enrich_state" where
  "extract_job_descriptions w df max_jobs_arg =
     (let max_jobs = effective_max_jobs df max_jobs_arg;
          st = \<lparr>result_rows = initial_rows df, navigated = []\<rparr>
      in if chrome_starts w then enrich_from w max_jobs 0 st else st)"

text \<open>A row with the two fields its detail page gives, when the page can be read.\<close>

definition enriched_row :: "web \<Rightarrow> detail_row \<Rightarrow> detail_row" where
  "enriched_row w r =
     (case detail_page w (Link r) of
        None \<Rightarrow> r
      | Some strong_elements \<Rightarrow>
          r\<lparr>MinimumQualifications := fst (scan_headings strong_elements),
            PreferredQualifications := snd (scan_headings strong_elements)\<rparr>)"

text \<open>
  The section boundary in the words of the specification: a sibling ends the section
  when it is heading-shaped (a paragraph holding a \<^verbatim>\<open>strong\<close> element) and the
  lower-cased heading text contains qualifications or what, or when it is a
  navigation-classed container. The section is the trimmed texts of the siblings
  before the first such one, the empty ones left out, joined by newlines.
\<close>

definition ends_section :: "block \<Rightarrow> bool" where
  "ends_section b =
     ((lower (tag_name b) = ''p''
         \<and> (case first_strong b of
               None \<Rightarrow> False
             | Some t \<Rightarrow> py_in ''qualifications'' (lower (strip t))
                           \<or> py_in ''what'' (lower (strip t))))
      \<or> (lower (tag_name b) = ''div'' \<and> py_in ''content-nav'' (class_attr b)))"

definition section_spec :: "block list \<Rightarrow> string" where
  "section_spec siblings =
     join_lines (filter (\<lambda>t. t \<noteq> [])
       (map (\<lambda>b. strip (block_text b)) (takeWhile (\<lambda>b. \<not> ends_section b) siblings)))"

text \<open>
  A flat detail page: heading blocks (a paragraph holding a \<^verbatim>\<open>strong\<close> element) and
  plain paragraphs, all children of one parent. The scenario page has the blocks A,
  Minimum Qualifications, p1, p2, Preferred Qualifications, p3.
\<close>

definition heading :: "string \<Rightarrow> block" where
  "heading t = \<lparr>tag_name = ''p'', block_text = t, first_strong = Some t, class_attr = []\<rparr>"

definition para :: "string \<Rightarrow> block" where
  "para t = \<lparr>tag_name = ''p'', block_text = t, first_strong = None, class_attr = []\<rparr>"

definition strong_at :: "block list \<Rightarrow> nat \<Rightarrow> strong_elem" where
  "strong_at doc i =
     \<lparr>strong_text = (case first_strong (doc ! i) of None \<Rightarrow> [] | Some t \<Rightarrow> t),
      following = drop (Suc i) doc\<rparr>"

definition scenario_doc :: "block list" where
  "scenario_doc = [heading ''A'', heading ''Minimum Qualifications'', para ''p1'', para ''p2'',
                   heading ''Preferred Qualifications'', para ''p3'']"

text \<open>The \<^verbatim>\<open>strong\<close> elements of the scenario page, in document order.\<close>

definition scenario_strongs :: "strong_elem list" where
  "scenario_strongs = [strong_at scenario_doc 0, strong_at scenario_doc 1, strong_at scenario_doc 4]"



text \<open>
  Two records and three webs: one where the first detail page cannot be opened and the
  second is the scenario page, one where both are the scenario page, and one where the
  first is the page with two minimum headings.
\<close>

definition plain_row :: "string \<Rightarrow> string \<Rightarrow> detail_row" where
  "plain_row t l = \<lparr>Title = t, Location = ''Not specified'', Department = ''Not specified'',
                    Link = l, MinimumQualifications = [], PreferredQualifications = []\<rparr>"

definition two_rows :: dataframe where
  "two_rows = \<lparr>rows = [plain_row ''SWE'' ''/job/1'', plain_row ''SRE'' ''/job/2''],
               has_min_column = False, has_pref_column = False\<rparr>"

definition first_page_fails :: web where
  "first_page_fails =
     \<lparr>chrome_starts = True,
      detail_page = (\<lambda>link. if link = ''/job/2'' then Some scenario_strongs else None)\<rparr>"

definition both_pages_load :: web where
  "both_pages_load = \<lparr>chrome_starts = True, detail_page = (\<lambda>link. Some scenario_strongs)\<rparr>"


section \<open>stream.py: the whole InfiniteScroll run\<close>

text \<open>
  The site as \<^verbatim>\<open>scrape_zscaler_jobs\<close> (lines 245 to 325) meets it: whether the Chrome
  driver starts and the board opens, the listing pages of the board, the search box
  (absent, usable, or raising when used), the listing pages shown after a search for a
  keyword, and the readings of the scroll loop. \<^verbatim>\<open>handle_popups\<close> absorbs every
  exception and changes nothing that is read later; the timeout of the first wait for
  job listings (line 281) is caught and the run goes on.
\<close>

datatype search_box = Absent | Usable | Broken

record zsite =
  driver_starts :: bool
  board_opens :: bool
  board :: "zpage list"
  search_input :: search_box
  search_results :: "string \<Rightarrow> zpage list"
  initial_height :: "int option"
  readings :: "nat \<Rightarrow> (int \<times> nat) option"

text \<open>
  Lines 286 to 301: the pages the driver is on after the optional search, or the
  exception that leaves the outer \<^verbatim>\<open>try\<close> (only \<^verbatim>\<open>NoSuchElementException\<close> is caught
  here, so the timeout of the wait after the search is not).
\<close>

definition after_search :: "zsite \<Rightarrow> string \<Rightarrow> py_error + zpage list" where
  "after_search site search_keyword =
     (if truthy search_keyword then
        (case search_input site of
           Absent \<Rightarrow> Inr (board site)
         | Broken \<Rightarrow> Inl DriverError
         | Usable \<Rightarrow>
             if openings (current_page (search_results site search_keyword)) = []
             then Inl DriverError
             else Inr (search_results site search_keyword))
      else Inr (board site))"

definition scrape_zscaler_jobs :: "zsite \<Rightarrow> string \<Rightarrow> nat \<Rightarrow> zjob list" where
  "scrape_zscaler_jobs site search_keyword max_pages =
     (if \<not> driver_starts site \<or> \<not> board_opens site then []
      else case after_search site search_keyword of
             Inl e \<Rightarrow> []
           | Inr driver \<Rightarrow>
               (case scroll_to_load_all (initial_height site) (readings site) 20 of
                  Inl e \<Rightarrow> []
                | Inr n \<Rightarrow>
                    (let all_jobs = handle_pagination driver max_pages
                     in if truthy search_keyword \<and> all_jobs \<noteq> []
                        then filter (\<lambda>job. py_in (lower search_keyword) (lower (Title job)))
                                    all_jobs
                        else all_jobs)))"

text \<open>Two sites with the scenario listing: one without a search box, one with.\<close>

definition no_box_site :: zsite where
  "no_box_site =
     \<lparr>driver_starts = True, board_opens = True, board = scenario_site, search_input = Absent,
      search_results = (\<lambda>k. []), initial_height = Some 100, readings = scenario_driver\<rparr>"

definition box_site :: zsite where
  "box_site =
     \<lparr>driver_starts = True, board_opens = True, board = scenario_site, search_input = Usable,
      search_results = (\<lambda>k. [scenario_page2]), initial_height = Some 100,
      readings = scenario_driver\<rparr>"

section \<open>app.py: job cards\<close>

text \<open>
  What the driver reports for one job card element: for an XPath selector the text of
  the first element found (\<open>None\<close> when \<^verbatim>\<open>find_element\<close> or the read raises), the
  \<^verbatim>\<open>href\<close> of the first anchor (\<open>None\<close> when there is no anchor or the read raises,
  \<open>Some None\<close> for an anchor without the attribute), and the read of the attribute
  \<^verbatim>\<open>data-job-id\<close>, which returns a string or \<^verbatim>\<open>None\<close>, or raises.
\<close>

datatype 'a attempt = Raises | Returns 'a

record ms_element =
  xpath_text :: "string \<Rightarrow> string option"
  anchor_href :: "string option option"
  data_job_id :: "string option attempt"

text \<open>The dictionary appended by \<^verbatim>\<open>extract_job_cards\<close>; \<open>url\<close> may be Python's \<^verbatim>\<open>None\<close>.\<close>

record job_card =
  title :: string
  location :: string
  days_ago :: string
  company :: string
  url :: "string option"

definition title_selectors :: "string list" where
  "title_selectors =
     [''.//h3'', ''.//h2'', ''.//a[contains(@data-ph-at-id, 'job-title')]'',
      ''.//div[contains(@class, 'title')]'', ''.//a[contains(@class, 'job-title')]'']"

definition location_selectors :: "string list" where
  "location_selectors =
     [''.//span[contains(@class, 'location')]'', ''.//span[contains(text(), ',')]'',
      ''.//div[contains(@class, 'location')]'', ''.//span[contains(@data-ph-id, 'location')]'']"

definition date_selectors :: "string list" where
  "date_selectors =
     [''.//span[contains(text(), 'ago')]'', ''.//span[contains(@class, 'date')]'',
      ''.//div[contains(@class, 'date')]'', ''.//span[contains(@data-ph-id, 'date')]'']"

text \<open>
  One of the three selector loops (lines 201 to 215, 221 to 234, 240 to 253): the value
  of the loop's variable afterwards, \<open>cur\<close> being its value so far.
\<close>

fun selector_loop :: "ms_element \<Rightarrow> string list \<Rightarrow> string option \<Rightarrow> string option" where
  "selector_loop job_element [] cur = cur"
| "selector_loop job_element (sel # sels) cur =
     (case xpath_text job_element sel of
        None \<Rightarrow> selector_loop job_element sels cur
      | Some t \<Rightarrow>
          if truthy (strip t) then Some (strip t)
          else selector_loop job_element sels (Some (strip t)))"

text \<open>\<^verbatim>\<open>if not v: v = sentinel\<close>\<close>

definition or_sentinel :: "string option \<Rightarrow> string \<Rightarrow> string" where
  "or_sentinel v sentinel =
     (case v of None \<Rightarrow> sentinel | Some s \<Rightarrow> if truthy s then s else sentinel)"

text \<open>Lines 259 to 270.\<close>

definition extract_url :: "ms_element \<Rightarrow> string option" where
  "extract_url job_element =
     (case anchor_href job_element of
        Some href \<Rightarrow> href
      | None \<Rightarrow>
          (case data_job_id job_element of
             Raises \<Rightarrow> Some ''Unknown URL''
           | Returns job_id \<Rightarrow>
               (case job_id of
                  None \<Rightarrow> None
                | Some i \<Rightarrow>
                    if truthy i then Some (''https://careers.microsoft.com/us/en/job/'' @ i)
                    else None)))"

definition extract_card :: "ms_element \<Rightarrow> job_card" where
  "extract_card job_element =
     \<lparr>title = or_sentinel (selector_loop job_element title_selectors None) ''Unknown Title'',
      location =
        or_sentinel (selector_loop job_element location_selectors None) ''Unknown Location'',
      days_ago = or_sentinel (selector_loop job_element date_selectors None) ''Unknown Date'',
      company = ''Microsoft'',
      url = extract_url job_element\<rparr>"

text \<open>A card element with nothing recognizable in it: no anchor, no job id.\<close>

definition bare_element :: ms_element where
  "bare_element = \<lparr>xpath_text = (\<lambda>sel. None), anchor_href = None, data_job_id = Returns None\<rparr>"

section \<open>app.py: the Paginated strategy\<close>

text \<open>
  A results page: for a CSS selector the elements it finds (a wait for presence times
  out when there is none), and for an XPath selector of the next-page routine the
  element that the wait for a clickable element returns, \<open>None\<close> when it times out.
\<close>

record control =
  disabled_attr :: "string option"
  control_class :: string
  aria_disabled :: "string option"
  click_raises :: bool

record ms_page =
  css :: "string \<Rightarrow> ms_element list"
  clickable :: "string \<Rightarrow> control option"

definition ms_current :: "ms_page list \<Rightarrow> ms_page" where
  "ms_current driver =
     (case driver of [] \<Rightarrow> \<lparr>css = (\<lambda>sel. []), clickable = (\<lambda>sel. None)\<rparr> | p # _ \<Rightarrow> p)"

definition card_selectors :: "string list" where
  "card_selectors = [''div.job-card'', ''div[data-ph-at-id='job-tile']'', ''div.jobs-list > div'',
                     ''li.search-result-item'']"

text \<open>\<^verbatim>\<open>extract_job_cards\<close> (lines 177 to 287).\<close>

definition extract_job_cards :: "ms_page \<Rightarrow> job_card list" where
  "extract_job_cards page =
     (case find (\<lambda>selector. css page selector \<noteq> []) card_selectors of
        None \<Rightarrow> []
      | Some selector \<Rightarrow> map extract_card (css page selector))"

definition next_selectors :: "string list" where
  "next_selectors =
     [''//button[contains(@aria-label, 'Next page') or contains(@aria-label, 'next page')]'',
      ''//a[contains(@aria-label, 'Next page') or contains(@aria-label, 'next page')]'',
      ''//button[contains(text(), 'Next')]'', ''//a[contains(text(), 'Next')]'',
      ''//li[contains(@class, 'next')]/a'',
      ''//div[contains(@class, 'pagination')]//li[last()]/a'',
      ''//button[contains(@class, 'next')]'']"

text \<open>
  The expression of line 308: its truth value, or the \<^verbatim>\<open>TypeError\<close> of
  \<^verbatim>\<open>"disabled" in None\<close>.
\<close>

definition disabled_check :: "control \<Rightarrow> py_error + bool" where
  "disabled_check next_button =
     (if truthy_opt (disabled_attr next_button) then Inr True
      else if py_in ''disabled'' (control_class next_button) then Inr True
      else case aria_disabled next_button of
             None \<Rightarrow> Inl TypeError
           | Some a \<Rightarrow> Inr (py_in ''disabled'' a))"

text \<open>
  \<^verbatim>\<open>go_to_next_page\<close> (lines 289 to 347): whether it returns \<^verbatim>\<open>True\<close>, the pages the
  driver is on afterwards, and the controls on which \<^verbatim>\<open>click()\<close> was called.
\<close>

record next_outcome =
  advanced :: bool
  browser :: "ms_page list"
  clicked :: "control list"

definition new_page_selector :: string where
  "new_page_selector = ''div.job-card, div[data-ph-at-id='job-tile']''"

fun try_next_selectors :: "ms_page list \<Rightarrow> string list \<Rightarrow> control list \<Rightarrow> next_outcome" where
  "try_next_selectors driver [] cl = \<lparr>advanced = False, browser = driver, clicked = cl\<rparr>"
| "try_next_selectors driver (next_selector # sels) cl =
     (case clickable (ms_current driver) next_selector of
        None \<Rightarrow> try_next_selectors driver sels cl
      | Some next_button \<Rightarrow>
          (case disabled_check next_button of
             Inl e \<Rightarrow> try_next_selectors driver sels cl
           | Inr disabled \<Rightarrow>
               if disabled then \<lparr>advanced = False, browser = driver, clicked = cl\<rparr>
               else if click_raises next_button
               then try_next_selectors driver sels (cl @ [next_button])
               else \<lparr>advanced = (css (ms_current (tl driver)) new_page_selector \<noteq> []),
                     browser = tl driver, clicked = cl @ [next_button]\<rparr>))"

definition go_to_next_page :: "ms_page list \<Rightarrow> next_outcome" where
  "go_to_next_page driver = try_next_selectors driver next_selectors []"

text \<open>
  The careers site as \<^verbatim>\<open>scrape_jobs\<close> meets it. The location filter is best effort:
  every failure in it is absorbed and nothing read later depends on it.
\<close>

record ms_site =
  chrome_driver_starts :: bool
  site_opens :: bool
  keyword_input_found :: bool
  search_button_clickable :: bool
  result_pages :: "ms_page list"

definition results_selector :: string where
  "results_selector = ''div.job-card, div.jobs-list, div[data-ph-at-id='job-list']''"

text \<open>
  \<^verbatim>\<open>navigate_to_search_results\<close> (lines 70 to 139); \<^verbatim>\<open>driver.get\<close> stands before the
  \<^verbatim>\<open>try\<close>, so its exception reaches the caller.
\<close>

definition navigate_to_search_results :: "ms_site \<Rightarrow> py_error + bool" where
  "navigate_to_search_results site =
     (if \<not> site_opens site then Inl DriverError
      else if \<not> keyword_input_found site then Inr False
      else if \<not> search_button_clickable site then Inr False
      else if css (ms_current (result_pages site)) results_selector \<noteq> [] then Inr True
      else Inr False)"

text \<open>
  What \<^verbatim>\<open>scrape_jobs\<close> (lines 349 to 407) returns, and how often it called
  \<^verbatim>\<open>extract_job_cards\<close>.
\<close>

record scrape_result =
  jobs :: "job_card list"
  extract_calls :: nat

function scrape_pages ::
  "ms_page list \<Rightarrow> nat \<Rightarrow> nat \<Rightarrow> job_card list \<Rightarrow> nat \<Rightarrow> scrape_result" where
  "scrape_pages driver max_pages page_no all_jobs calls =
     (if page_no < max_pages then
        (let r = go_to_next_page driver
         in if advanced r
            then scrape_pages (browser r) max_pages (page_no + 1)
                   (all_jobs @ extract_job_cards (ms_current (browser r))) (calls + 1)
            else \<lparr>jobs = all_jobs, extract_calls = calls\<rparr>)
      else \<lparr>jobs = all_jobs, extract_calls = calls\<rparr>)"
  by pat_completeness auto
termination
  by (relation "measure (\<lambda>(driver, max_pages, page_no, all_jobs, calls). max_pages - page_no)")
     auto

definition scrape_jobs :: "ms_site \<Rightarrow> nat \<Rightarrow> scrape_result" where
  "scrape_jobs site max_pages =
     (if \<not> chrome_driver_starts site then \<lparr>jobs = [], extract_calls = 0\<rparr>
      else case navigate_to_search_results site of
             Inl e \<Rightarrow> \<lparr>jobs = [], extract_calls = 0\<rparr>
           | Inr success \<Rightarrow>
               if \<not> success then \<lparr>jobs = [], extract_calls = 0\<rparr>
               else scrape_pages (result_pages site) max_pages 1
                      (extract_job_cards (ms_current (result_pages site))) 1)"

text \<open>
  A site whose results page shows its cards as list items only, which the wait for a
  card container does not recognize.
\<close>

definition list_item_page :: ms_page where
  "list_item_page =
     \<lparr>css = (\<lambda>sel. if sel = ''li.search-result-item'' then [bare_element] else []),
      clickable = (\<lambda>sel. None)\<rparr>"

definition list_item_site :: ms_site where
  "list_item_site =
     \<lparr>chrome_driver_starts = True, site_opens = True, keyword_input_found = True,
      search_button_clickable = True, result_pages = [list_item_page]\<rparr>"








section \<open>Duplicate suppression within one extraction pass\<close>

lemma is_duplicate_iff:
  "is_duplicate jobs_data t l \<longleftrightarrow> (t, l) \<in> job_key ` set jobs_data"
  by (auto simp: is_duplicate_def list_ex_iff job_key_def)

lemma extract_one_keys:
  "map job_key (extract_one jobs_data job) =
     map job_key jobs_data @
       (case card_key job of
          None \<Rightarrow> []
        | Some k \<Rightarrow> if k \<in> set (map job_key jobs_data) then [] else [k])"
  by (auto simp: extract_one_def card_key_def is_duplicate_iff job_key_def Let_def
           split: option.splits prod.splits)

lemma pass_keys:
  "map job_key (foldl extract_one [] cards) = rev (remdups (rev (List.map_filter card_key cards)))"
proof (induction cards rule: rev_induct)
  case Nil
  show ?case by (simp add: List.map_filter_simps)
next
  case (snoc x xs)
  then show ?case
    by (cases "card_key x") (simp_all add: extract_one_keys List.map_filter_def)
qed

lemma extract_one_cases:
  "extract_one jobs_data job =
     (case card_key job of
        None \<Rightarrow> jobs_data
      | Some (t, l) \<Rightarrow>
          if (\<exists>e \<in> set jobs_data. Title e = t \<and> Link e = l) then jobs_data
          else jobs_data @ [\<lparr>Title = t, Location = extract_location job,
                             Department = extract_department job, Link = l\<rparr>])"
  by (auto simp: extract_one_def card_key_def is_duplicate_def list_ex_iff Let_def
           split: option.splits prod.splits)

lemma loop_concat:
  "\<exists>n. n \<le> Suc max_pages - page \<and>
     handle_pagination_loop driver max_pages page all_jobs =
       all_jobs @ concat (map (\<lambda>i. extract_job_listings_zscaler (current_page (drop i driver))) [0..<n])"
proof (induction driver max_pages page all_jobs rule: handle_pagination_loop.induct)
  case (1 driver max_pages page all_jobs)
  let ?E = "\<lambda>d i. extract_job_listings_zscaler (current_page (drop i d))"
  let ?here = "all_jobs @ extract_job_listings_zscaler (current_page driver)"
  have one: "?here = all_jobs @ concat (map (?E driver) [0..<1])" by simp
  show ?case
  proof (cases "page \<le> max_pages")
    case False
    have "handle_pagination_loop driver max_pages page all_jobs = all_jobs @ concat (map (?E driver) [0..<0])"
      using False by (subst handle_pagination_loop.simps) simp
    then show ?thesis by blast
  next
    case le: True
    show ?thesis
    proof (cases "find_next_button (current_page driver)")
      case None
      have "handle_pagination_loop driver max_pages page all_jobs = ?here"
        using le None by (subst handle_pagination_loop.simps) (simp add: Let_def)
      with one le show ?thesis
        by (intro exI[of _ 1]) (simp del: handle_pagination_loop.simps)
    next
      case (Some b)
      show ?thesis
      proof (cases "click_ok b \<and> openings (current_page (tl driver)) \<noteq> []")
        case False
        have "handle_pagination_loop driver max_pages page all_jobs = ?here"
          using le Some False by (subst handle_pagination_loop.simps) (auto simp: Let_def)
        with one le show ?thesis
          by (intro exI[of _ 1]) (simp del: handle_pagination_loop.simps)
      next
        case True
        then have eq: "handle_pagination_loop driver max_pages page all_jobs =
                       handle_pagination_loop (tl driver) max_pages (page + 1) ?here"
          using le Some by (subst handle_pagination_loop.simps) (simp add: Let_def)
        from "1.IH"[OF le refl refl Some] True
        obtain n where n: "n \<le> Suc max_pages - (page + 1)"
          and r: "handle_pagination_loop (tl driver) max_pages (page + 1) ?here =
                    ?here @ concat (map (?E (tl driver)) [0..<n])"
          by (auto simp del: handle_pagination_loop.simps)
        have "?here @ concat (map (?E (tl driver)) [0..<n]) =
              all_jobs @ concat (map (?E driver) [0..<Suc n])"
          by (simp add: map_upt_Suc drop_Suc del: upt_Suc)
        with eq r n le show ?thesis
          by (intro exI[of _ "Suc n"]) (simp del: handle_pagination_loop.simps upt_Suc)
      qed
    qed
  qed
qed

text \<open>
  Claim C10. Duplicate suppression compares the identity pair by exact, case-sensitive
  equality of the stored title and link. Each job element that passes the non-blank
  check is appended if and only if no record already collected in the same pass has an
  equal Title and an equal Link; so the identity pairs of a pass are the first
  occurrences, in order, of the pairs the job elements contribute. Job elements whose
  titles or links differ only in letter case are all kept, an exact repeat is dropped.
\<close>

theorem duplicate_suppression_exact_equality:
  "extract_one jobs_data job =
     (case card_key job of
        None \<Rightarrow> jobs_data
      | Some (t, l) \<Rightarrow>
          if (\<exists>e \<in> set jobs_data. Title e = t \<and> Link e = l) then jobs_data
          else jobs_data @ [\<lparr>Title = t, Location = extract_location job,
                             Department = extract_department job, Link = l\<rparr>])
   \<and> map job_key (extract_job_listings_zscaler page) =
       rev (remdups (rev (List.map_filter card_key (openings page))))
   \<and> map job_key (extract_job_listings_zscaler case_page) =
       [(''SWE II'', ''/job/1''), (''swe ii'', ''/job/1''), (''SWE II'', ''/JOB/1'')]"
proof (intro conjI)
  show "extract_one jobs_data job =
     (case card_key job of
        None \<Rightarrow> jobs_data
      | Some (t, l) \<Rightarrow>
          if (\<exists>e \<in> set jobs_data. Title e = t \<and> Link e = l) then jobs_data
          else jobs_data @ [\<lparr>Title = t, Location = extract_location job,
                             Department = extract_department job, Link = l\<rparr>])"
    by (rule extract_one_cases)
  show "map job_key (extract_job_listings_zscaler page) =
     rev (remdups (rev (List.map_filter card_key (openings page))))"
    by (simp add: extract_job_listings_zscaler_def pass_keys)
  show "map job_key (extract_job_listings_zscaler case_page) =
     [(''SWE II'', ''/job/1''), (''swe ii'', ''/job/1''), (''SWE II'', ''/JOB/1'')]"
    by (simp add: extract_job_listings_zscaler_def case_page_def extract_one_def card_def
        strip_def is_space_def truthy_def is_duplicate_def job_key_def Let_def)
qed

theorem duplicate_suppression_exact_equality_witness:
  "extract_one [\<lparr>Title = ''SWE II'', Location = ''Not specified'',
                 Department = ''Not specified'', Link = ''/job/1''\<rparr>]
               (card ''swe ii'' ''/job/1'') =
     [\<lparr>Title = ''SWE II'', Location = ''Not specified'',
       Department = ''Not specified'', Link = ''/job/1''\<rparr>,
      \<lparr>Title = ''swe ii'', Location = ''Not specified'',
       Department = ''Not specified'', Link = ''/job/1''\<rparr>]"
  using duplicate_suppression_exact_equality
          [of "[\<lparr>Title = ''SWE II'', Location = ''Not specified'',
                  Department = ''Not specified'', Link = ''/job/1''\<rparr>]"
              "card ''swe ii'' ''/job/1''"]
  by (simp add: card_key_def card_def strip_def is_space_def truthy_def
      extract_location_def extract_department_def)

text \<open>
  Claim C1, as the code has it. One extraction pass holds at most one record per
  (title, link) pair, and pagination appends the passes of the pages it visits, at most
  \<open>max_pages\<close> of them, one after the other with no comparison between pages: a pair
  that two pages show is collected once per page. The two-page listing of ten and four
  cards with one shared pair gives fourteen records.
\<close>

theorem pagination_appends_page_passes:
  "distinct (map job_key (extract_job_listings_zscaler page))
   \<and> (\<exists>n. n \<le> max_pages \<and>
         handle_pagination driver max_pages =
           concat (map (\<lambda>i. extract_job_listings_zscaler (current_page (drop i driver)))
                       [0..<n]))
   \<and> length (handle_pagination scenario_site 3) = 14"
proof (intro conjI)
  show "length (handle_pagination scenario_site 3) = 14"
    by (simp add: handle_pagination_def scenario_site_def scenario_page1_def scenario_page2_def
        current_page_def find_next_button_def enabled_next_def extract_job_listings_zscaler_def
        extract_one_def card_def strip_def is_space_def truthy_def is_duplicate_def
        extract_location_def extract_department_def Let_def)
  show "distinct (map job_key (extract_job_listings_zscaler page))"
    by (simp add: extract_job_listings_zscaler_def pass_keys)
  show "\<exists>n. n \<le> max_pages \<and>
         handle_pagination driver max_pages =
           concat (map (\<lambda>i. extract_job_listings_zscaler (current_page (drop i driver)))
                       [0..<n])"
    using loop_concat[of max_pages 1 driver "[]"] by (simp add: handle_pagination_def)
qed

text \<open>
  The scenario of claim C1 on the code: the two-page listing of ten and four cards that
  share one (title, link) pair gives fourteen records, the shared pair twice.
\<close>

theorem cross_page_duplicate_counterexample:
  "length (handle_pagination scenario_site 3) = 14
   \<and> length (handle_pagination scenario_site 3) \<noteq> 13
   \<and> \<not> distinct (map job_key (handle_pagination scenario_site 3))"
  by (simp add: handle_pagination_def scenario_site_def scenario_page1_def scenario_page2_def
      current_page_def find_next_button_def enabled_next_def extract_job_listings_zscaler_def
      extract_one_def card_def strip_def is_space_def truthy_def is_duplicate_def
      extract_location_def extract_department_def job_key_def Let_def)

section \<open>The scroll loop halts on three stalls or at the ceiling\<close>

declare scroll_loop.simps [simp del]

lemma scroll_loop_reaches_three:
  "s \<le> n \<Longrightarrow> n \<le> M \<Longrightarrow> spec_stall h0 r n = 3 \<Longrightarrow> \<forall>m<n. spec_stall h0 r m < 3 \<Longrightarrow>
   spec_stall h0 r s < 3 \<Longrightarrow>
   scroll_loop (\<lambda>i. Some (r i)) M s (fst (previous_reading h0 r s)) (snd (previous_reading h0 r s))
     (spec_stall h0 r s) =
   Inr \<lparr>iterations = n, stall_count = 3, found = snd (previous_reading h0 r n)\<rparr>"
proof (induction "n - s" arbitrary: s)
  case 0
  then show ?case by simp
next
  case (Suc d)
  then have lt: "s < n" "s < M" by simp_all
  have prevS: "previous_reading h0 r (Suc s) = r s" by (simp add: previous_reading_def)
  obtain h j where rs: "r s = (h, j)" by (cases "r s")
  show ?case
  proof (cases "spec_stall h0 r (Suc s) = 3")
    case True
    have "Suc s = n"
    proof (rule ccontr)
      assume "Suc s \<noteq> n"
      with lt have "Suc s < n" by simp
      with Suc.prems(4) True show False by auto
    qed
    moreover from True have same: "r s = previous_reading h0 r s" and c: "spec_stall h0 r s = 2"
      by (auto split: if_splits)
    ultimately show ?thesis
      using lt prevS by (subst scroll_loop.simps) (simp add: c case_prod_beta)
  next
    case False
    have small: "spec_stall h0 r (Suc s) < 3"
      using False Suc.prems(5) by (auto split: if_splits)
    have step: "scroll_loop (\<lambda>i. Some (r i)) M s (fst (previous_reading h0 r s))
                  (snd (previous_reading h0 r s)) (spec_stall h0 r s) =
                scroll_loop (\<lambda>i. Some (r i)) M (Suc s) h j (spec_stall h0 r (Suc s))"
      using lt rs False small
      by (subst scroll_loop.simps) (cases "previous_reading h0 r s", auto)
    have "Suc s \<le> n" using lt by simp
    moreover have "d = n - Suc s" using Suc.hyps(2) by simp
    ultimately have "scroll_loop (\<lambda>i. Some (r i)) M (Suc s) (fst (previous_reading h0 r (Suc s)))
        (snd (previous_reading h0 r (Suc s))) (spec_stall h0 r (Suc s)) =
       Inr \<lparr>iterations = n, stall_count = 3, found = snd (previous_reading h0 r n)\<rparr>"
      using Suc.hyps(1)[of "Suc s"] Suc.prems(2,3,4) small by blast
    with step rs prevS show ?thesis by simp
  qed
qed

lemma scroll_loop_reaches_ceiling:
  "s \<le> M \<Longrightarrow> \<forall>m\<le>M. spec_stall h0 r m < 3 \<Longrightarrow>
   scroll_loop (\<lambda>i. Some (r i)) M s (fst (previous_reading h0 r s)) (snd (previous_reading h0 r s))
     (spec_stall h0 r s) =
   Inr \<lparr>iterations = M, stall_count = spec_stall h0 r M, found = snd (previous_reading h0 r M)\<rparr>"
proof (induction "M - s" arbitrary: s)
  case 0
  then have "s = M" by simp
  then show ?case by (subst scroll_loop.simps) simp
next
  case (Suc d)
  then have lt: "s < M" by simp
  have prevS: "previous_reading h0 r (Suc s) = r s" by (simp add: previous_reading_def)
  obtain h j where rs: "r s = (h, j)" by (cases "r s")
  have small: "spec_stall h0 r (Suc s) < 3" using Suc.prems(2) lt by (simp del: spec_stall.simps)
  have step: "scroll_loop (\<lambda>i. Some (r i)) M s (fst (previous_reading h0 r s))
                (snd (previous_reading h0 r s)) (spec_stall h0 r s) =
              scroll_loop (\<lambda>i. Some (r i)) M (Suc s) h j (spec_stall h0 r (Suc s))"
    using lt rs small
    by (subst scroll_loop.simps) (cases "previous_reading h0 r s", auto)
  have "d = M - Suc s" using Suc.hyps(2) by simp
  moreover have "Suc s \<le> M" using lt by simp
  ultimately have "scroll_loop (\<lambda>i. Some (r i)) M (Suc s) (fst (previous_reading h0 r (Suc s)))
        (snd (previous_reading h0 r (Suc s))) (spec_stall h0 r (Suc s)) =
       Inr \<lparr>iterations = M, stall_count = spec_stall h0 r M, found = snd (previous_reading h0 r M)\<rparr>"
    using Suc.hyps(1)[of "Suc s"] Suc.prems(2) by blast
  with step rs prevS show ?case by simp
qed

lemma stable_run_stalls:
  assumes z: "spec_stall h0 r k = 0"
    and st: "\<forall>i. k \<le> i \<and> i < k + 3 \<longrightarrow> r i = previous_reading h0 r i"
  shows "spec_stall h0 r (k + 1) = 1" "spec_stall h0 r (k + 2) = 2" "spec_stall h0 r (k + 3) = 3"
    "snd (previous_reading h0 r (k + 3)) = snd (previous_reading h0 r k)"
proof -
  have a: "r k = previous_reading h0 r k" using st by simp
  have b: "r (Suc k) = previous_reading h0 r (Suc k)" using st by simp
  have c: "r (Suc (Suc k)) = previous_reading h0 r (Suc (Suc k))" using st by simp
  show 1: "spec_stall h0 r (k + 1) = 1" using z a by simp
  have 2: "spec_stall h0 r (Suc (Suc k)) = 2" using 1 b by simp
  then show "spec_stall h0 r (k + 2) = 2" by simp
  have "spec_stall h0 r (Suc (Suc (Suc k))) = 3" using 2 c by simp
  then show "spec_stall h0 r (k + 3) = 3" by (simp add: numeral_3_eq_3)
  show "snd (previous_reading h0 r (k + 3)) = snd (previous_reading h0 r k)"
    using a b c by (simp add: previous_reading_def numeral_3_eq_3)
qed

text \<open>
  Claim C3, as the code has it. The stall counter of the scroll loop follows the
  stability rule (one more for an iteration whose height and job count both equal the
  previous readings, 0 after any change), and the loop halts at the first iteration
  after which the counter is 3, or after \<open>max_scrolls\<close> iterations if the counter stays
  below 3 that long. A page whose last change is at iteration \<open>k\<close>, the loop not having
  halted earlier, and whose next three readings are unchanged halts the loop at
  iteration \<open>k + 3\<close> for every \<open>max_scrolls\<close> of at least \<open>k + 3\<close>. With heights
  100, 200, 200, 200 and job counts 5, 8, 8, 8 on a page that then stays as it is, the
  loop stops after the fifth reading.
\<close>

theorem scroll_loop_halting:
  "(n \<le> M \<and> spec_stall h0 r n = 3 \<and> (\<forall>m<n. spec_stall h0 r m < 3) \<longrightarrow>
      scroll_to_load_all (Some h0) (\<lambda>i. Some (r i)) M =
        Inr \<lparr>iterations = n, stall_count = 3, found = snd (previous_reading h0 r n)\<rparr>)
   \<and> ((\<forall>m\<le>M. spec_stall h0 r m < 3) \<longrightarrow>
      scroll_to_load_all (Some h0) (\<lambda>i. Some (r i)) M =
        Inr \<lparr>iterations = M, stall_count = spec_stall h0 r M,
             found = snd (previous_reading h0 r M)\<rparr>)
   \<and> (k + 3 \<le> M \<and> spec_stall h0 r k = 0 \<and> (\<forall>m<k. spec_stall h0 r m < 3)
        \<and> (\<forall>i. k \<le> i \<and> i < k + 3 \<longrightarrow> r i = previous_reading h0 r i) \<longrightarrow>
      scroll_to_load_all (Some h0) (\<lambda>i. Some (r i)) M =
        Inr \<lparr>iterations = k + 3, stall_count = 3, found = snd (previous_reading h0 r k)\<rparr>)
   \<and> scroll_to_load_all (Some 100) scenario_driver 20 =
        Inr \<lparr>iterations = 5, stall_count = 3, found = 8\<rparr>"
proof -
  have scenario: "scroll_to_load_all (Some 100) scenario_driver 20 =
        Inr \<lparr>iterations = 5, stall_count = 3, found = 8\<rparr>"
    by (simp add: scroll_to_load_all_def scenario_driver_def scenario_readings_def
        scroll_loop.simps eval_nat_numeral)
  have start: "scroll_to_load_all (Some h0) (\<lambda>i. Some (r i)) M =
      scroll_loop (\<lambda>i. Some (r i)) M 0 (fst (previous_reading h0 r 0))
        (snd (previous_reading h0 r 0)) (spec_stall h0 r 0)"
    by (simp add: scroll_to_load_all_def previous_reading_def)
  have three: "scroll_to_load_all (Some h0) (\<lambda>i. Some (r i)) M =
        Inr \<lparr>iterations = n, stall_count = 3, found = snd (previous_reading h0 r n)\<rparr>"
    if "n \<le> M" "spec_stall h0 r n = 3" "\<forall>m<n. spec_stall h0 r m < 3" for n
    unfolding start using that by (intro scroll_loop_reaches_three) simp_all
  have ceiling: "scroll_to_load_all (Some h0) (\<lambda>i. Some (r i)) M =
        Inr \<lparr>iterations = M, stall_count = spec_stall h0 r M,
             found = snd (previous_reading h0 r M)\<rparr>"
    if "\<forall>m\<le>M. spec_stall h0 r m < 3"
    unfolding start using that by (intro scroll_loop_reaches_ceiling) simp_all
  have stable: "scroll_to_load_all (Some h0) (\<lambda>i. Some (r i)) M =
        Inr \<lparr>iterations = k + 3, stall_count = 3, found = snd (previous_reading h0 r k)\<rparr>"
    if le: "k + 3 \<le> M" and z: "spec_stall h0 r k = 0" and before: "\<forall>m<k. spec_stall h0 r m < 3"
      and st: "\<forall>i. k \<le> i \<and> i < k + 3 \<longrightarrow> r i = previous_reading h0 r i"
  proof -
    note run = stable_run_stalls[OF z st]
    have "spec_stall h0 r m < 3" if "m < k + 3" for m
    proof -
      from that consider "m < k" | "m = k" | "m = k + 1" | "m = k + 2" by linarith
      then show ?thesis using before z run(1,2) by cases simp_all
    qed
    then have "\<forall>m<k + 3. spec_stall h0 r m < 3" by blast
    from three[OF le run(3) this] run(4) show ?thesis by simp
  qed
  from three ceiling stable scenario show ?thesis by blast
qed

lemma scenario_stalls:
  "spec_stall 100 scenario_readings 0 = 0" "spec_stall 100 scenario_readings 1 = 0"
  "spec_stall 100 scenario_readings 2 = 0" "spec_stall 100 scenario_readings 3 = 1"
  "spec_stall 100 scenario_readings 4 = 2" "spec_stall 100 scenario_readings 5 = 3"
  by (simp_all add: eval_nat_numeral scenario_readings_def previous_reading_def)

theorem scroll_loop_halting_witness:
  "scroll_to_load_all (Some 100) (\<lambda>i. Some (scenario_readings i)) 20 =
     Inr \<lparr>iterations = 5, stall_count = 3, found = 8\<rparr>
   \<and> scroll_to_load_all (Some 100) (\<lambda>i. Some (scenario_readings i)) 4 =
     Inr \<lparr>iterations = 4, stall_count = 2, found = 8\<rparr>"
proof -
  have below5: "\<forall>m<5. spec_stall 100 scenario_readings m < 3"
  proof (intro allI impI)
    fix m :: nat assume "m < 5"
    then consider "m = 0" | "m = 1" | "m = 2" | "m = 3" | "m = 4" by linarith
    then show "spec_stall 100 scenario_readings m < 3"
      using scenario_stalls by cases (simp_all del: spec_stall.simps)
  qed
  have upto4: "\<forall>m\<le>4. spec_stall 100 scenario_readings m < 3"
    using below5 by (simp add: less_Suc_eq_le [symmetric] eval_nat_numeral del: spec_stall.simps)
  have before2: "\<forall>m<2. spec_stall 100 scenario_readings m < 3"
    using below5 by simp
  have stable: "\<forall>i. 2 \<le> i \<and> i < 2 + 3 \<longrightarrow> scenario_readings i = previous_reading 100 scenario_readings i"
    by (auto simp: scenario_readings_def previous_reading_def)
  have "scroll_to_load_all (Some 100) (\<lambda>i. Some (scenario_readings i)) 20 =
     Inr \<lparr>iterations = 2 + 3, stall_count = 3, found = snd (previous_reading 100 scenario_readings 2)\<rparr>"
    using scroll_loop_halting[of 5 20 100 scenario_readings 2] before2 stable scenario_stalls by simp
  moreover have "scroll_to_load_all (Some 100) (\<lambda>i. Some (scenario_readings i)) 4 =
     Inr \<lparr>iterations = 4, stall_count = spec_stall 100 scenario_readings 4,
          found = snd (previous_reading 100 scenario_readings 4)\<rparr>"
    using scroll_loop_halting[of 5 4 100 scenario_readings 2] upto4 by blast
  ultimately show ?thesis
    by (simp add: scenario_stalls previous_reading_def scenario_readings_def)
qed

text \<open>
  The scenario of claim C3 on the code, with the default ceiling of 20: heights
  100, 200, 200, 200 and job counts 5, 8, 8, 8 leave the stall counter at 2 after the
  fourth reading (the last change is at iteration 2), and the loop stops after the fifth.
\<close>

theorem scroll_scenario_counterexample:
  "scroll_to_load_all (Some 100) scenario_driver 20 =
     Inr \<lparr>iterations = 5, stall_count = 3, found = 8\<rparr>
   \<and> scroll_to_load_all (Some 100) scenario_driver 20 \<noteq>
     Inr \<lparr>iterations = 4, stall_count = 3, found = 8\<rparr>
   \<and> spec_stall 100 scenario_readings 4 = 2"
  by (simp add: scroll_to_load_all_def scenario_driver_def scenario_readings_def
      scroll_loop.simps eval_nat_numeral previous_reading_def)

section \<open>The detail page: section text and heading scan\<close>

lemmas string_eval = lower_def lower_char_def strip_def is_space_def truthy_def

lemma section_walk_takeWhile:
  "section_walk bs = map (\<lambda>b. strip (block_text b)) (takeWhile (\<lambda>b. \<not> ends_section b) bs)"
  by (induction bs) (auto simp: ends_section_def Let_def split: option.splits)

text \<open>
  Claim C6. Applied to a heading element, the Section Extractor returns the trimmed texts
  of the siblings that follow the heading's parent block, joined by newlines with the
  empty ones left out, up to but not including the first sibling that is heading-shaped
  with a heading text containing qualifications or what, or that is a navigation-classed
  container. On the page A, Minimum Qualifications, p1, p2, Preferred Qualifications, p3
  the heading Minimum Qualifications gives p1 and p2 on two lines, without p3.
\<close>

theorem section_extractor_boundary:
  "get_section_text heading_element = section_spec (following heading_element)
   \<and> get_section_text (strong_at scenario_doc 1) = ''p1'' @ [CHR 0x0A] @ ''p2''
   \<and> \<not> py_in ''p3'' (get_section_text (strong_at scenario_doc 1))"
proof (intro conjI)
  have "truthy = (\<lambda>t. t \<noteq> [])"
    by (simp add: truthy_def fun_eq_iff)
  then show "get_section_text heading_element = section_spec (following heading_element)"
    by (simp add: get_section_text_def section_spec_def section_walk_takeWhile)
  show eq: "get_section_text (strong_at scenario_doc 1) = ''p1'' @ [CHR 0x0A] @ ''p2''"
    by (simp add: get_section_text_def strong_at_def scenario_doc_def heading_def para_def
        string_eval)
  show "\<not> py_in ''p3'' (get_section_text (strong_at scenario_doc 1))"
    unfolding eq by simp
qed






section \<open>Detail enrichment stops at the first page that fails\<close>

declare enrich_from.simps [simp del]

lemma enrich_from_run:
  assumes "i \<le> f" "f \<le> m" "m \<le> length (result_rows st)"
    and "\<forall>j. i \<le> j \<and> j < f \<longrightarrow> detail_page w (Link (result_rows st ! j)) \<noteq> None"
    and "f = m \<or> detail_page w (Link (result_rows st ! f)) = None"
  shows "navigated (enrich_from w m i st) =
           navigated st @ map (\<lambda>j. Link (result_rows st ! j)) [i..<(if f < m then Suc f else m)]
       \<and> length (result_rows (enrich_from w m i st)) = length (result_rows st)
       \<and> (\<forall>j. i \<le> j \<and> j < f \<longrightarrow>
             result_rows (enrich_from w m i st) ! j = enriched_row w (result_rows st ! j))
       \<and> (\<forall>j. j < i \<or> f \<le> j \<longrightarrow>
             result_rows (enrich_from w m i st) ! j = result_rows st ! j)"
  using assms
proof (induction "f - i" arbitrary: i st)
  case 0
  then have [simp]: "i = f" by simp
  show ?case
  proof (cases "f < m")
    case False
    with 0 have "f = m" by simp
    then have "enrich_from w m f st = st" by (subst enrich_from.simps) simp
    with \<open>f = m\<close> show ?thesis by auto
  next
    case True
    with 0 have "detail_page w (Link (result_rows st ! f)) = None" by auto
    with True have "enrich_from w m f st =
        st\<lparr>navigated := navigated st @ [Link (result_rows st ! f)]\<rparr>"
      by (subst enrich_from.simps) (simp add: Let_def)
    with True show ?thesis by auto
  qed
next
  case (Suc d)
  then have lt: "i < f" "i < m" "i < length (result_rows st)" by simp_all
  let ?R = "result_rows st"
  from Suc.prems(4) lt obtain hs where hs: "detail_page w (Link (?R ! i)) = Some hs" by auto
  define e where "e = (?R ! i)\<lparr>MinimumQualifications := fst (scan_headings hs),
                               PreferredQualifications := snd (scan_headings hs)\<rparr>"
  define st2 where "st2 = st\<lparr>navigated := navigated st @ [Link (?R ! i)],
                            result_rows := ?R[i := e]\<rparr>"
  have step: "enrich_from w m i st = enrich_from w m (Suc i) st2"
    using lt hs by (subst enrich_from.simps) (simp add: Let_def st2_def e_def)
  have rows2: "result_rows st2 = ?R[i := e]" and nav2: "navigated st2 = navigated st @ [Link (?R ! i)]"
    by (simp_all add: st2_def)
  have e_row: "e = enriched_row w (?R ! i)" by (simp add: enriched_row_def hs e_def)
  have same: "result_rows st2 ! j = ?R ! j" if "j \<noteq> i" for j
    using that by (simp add: rows2)
  have IH: "navigated (enrich_from w m (Suc i) st2) =
           navigated st2 @ map (\<lambda>j. Link (result_rows st2 ! j)) [Suc i..<(if f < m then Suc f else m)]
       \<and> length (result_rows (enrich_from w m (Suc i) st2)) = length (result_rows st2)
       \<and> (\<forall>j. Suc i \<le> j \<and> j < f \<longrightarrow>
             result_rows (enrich_from w m (Suc i) st2) ! j = enriched_row w (result_rows st2 ! j))
       \<and> (\<forall>j. j < Suc i \<or> f \<le> j \<longrightarrow>
             result_rows (enrich_from w m (Suc i) st2) ! j = result_rows st2 ! j)"
  proof (rule Suc.hyps(1))
    show "d = f - Suc i" using Suc.hyps(2) by simp
    show "Suc i \<le> f" using lt by simp
    show "f \<le> m" by (rule Suc.prems(2))
    show "m \<le> length (result_rows st2)" using Suc.prems(3) by (simp add: rows2)
    show "\<forall>j. Suc i \<le> j \<and> j < f \<longrightarrow> detail_page w (Link (result_rows st2 ! j)) \<noteq> None"
      using Suc.prems(4) by (simp add: same)
    show "f = m \<or> detail_page w (Link (result_rows st2 ! f)) = None"
      using Suc.prems(5) lt by (simp add: same)
  qed
  have upper: "i < (if f < m then Suc f else m)" using lt by simp
  have maps: "map (\<lambda>j. Link (result_rows st2 ! j)) [Suc i..<(if f < m then Suc f else m)] =
              map (\<lambda>j. Link (?R ! j)) [Suc i..<(if f < m then Suc f else m)]"
    by (rule map_cong) (simp_all add: same)
  have nav: "navigated (enrich_from w m i st) =
           navigated st @ map (\<lambda>j. Link (?R ! j)) [i..<(if f < m then Suc f else m)]"
    using IH upper unfolding step maps nav2 by (simp add: upt_conv_Cons del: upt_Suc)
  have len: "length (result_rows (enrich_from w m i st)) = length ?R"
    using IH unfolding step by (simp add: rows2)
  have mid: "result_rows (enrich_from w m i st) ! j = enriched_row w (?R ! j)"
    if "i \<le> j \<and> j < f" for j
  proof (cases "j = i")
    case True
    with IH have "result_rows (enrich_from w m (Suc i) st2) ! j = result_rows st2 ! i" by simp
    with True lt show ?thesis unfolding step by (simp add: rows2 e_row)
  next
    case False
    with that have "Suc i \<le> j \<and> j < f" by simp
    with IH have "result_rows (enrich_from w m (Suc i) st2) ! j = enriched_row w (result_rows st2 ! j)"
      by blast
    with False show ?thesis unfolding step by (simp add: same)
  qed
  have out: "result_rows (enrich_from w m i st) ! j = ?R ! j" if "j < i \<or> f \<le> j" for j
  proof -
    from that lt have ne: "j \<noteq> i" and "j < Suc i \<or> f \<le> j" by auto
    with IH have "result_rows (enrich_from w m (Suc i) st2) ! j = result_rows st2 ! j" by blast
    with ne show ?thesis unfolding step by (simp add: same)
  qed
  from nav len mid out show ?case by blast
qed

lemma effective_max_jobs_le: "effective_max_jobs df cap \<le> length (rows df)"
  by (auto simp: effective_max_jobs_def split: option.splits)

lemma initial_rows_facts:
  "length (initial_rows df) = length (rows df)"
  "j < length (rows df) \<Longrightarrow> Link (initial_rows df ! j) = Link (rows df ! j)"
  by (simp_all add: initial_rows_def)


text \<open>
  Claim C4, as the code has it. The loop over the records runs inside the single
  \<^verbatim>\<open>try\<close> of the function, so an exception raised while enriching the record at
  position \<open>f\<close> below the cap is caught after the loop has been left: the function
  still returns the data frame, the records before \<open>f\<close> carry the fields of their
  pages, the links navigated to are those of positions 0 to \<open>f\<close>, and the record at
  \<open>f\<close> and all records after it keep the values they started with.
\<close>

theorem enrichment_stops_at_first_failure:
  "chrome_starts w \<and> f < effective_max_jobs df cap
   \<and> detail_page w (Link (rows df ! f)) = None
   \<and> (\<forall>j<f. detail_page w (Link (rows df ! j)) \<noteq> None) \<longrightarrow>
   navigated (extract_job_descriptions w df cap) = map (\<lambda>j. Link (rows df ! j)) [0..<Suc f]
   \<and> length (result_rows (extract_job_descriptions w df cap)) = length (rows df)
   \<and> (\<forall>j<f. result_rows (extract_job_descriptions w df cap) ! j =
               enriched_row w (initial_rows df ! j))
   \<and> (\<forall>j. f \<le> j \<and> j < length (rows df) \<longrightarrow>
         result_rows (extract_job_descriptions w df cap) ! j = initial_rows df ! j)"
proof (intro impI, elim conjE)
  let ?m = "effective_max_jobs df cap"
  let ?st = "\<lparr>result_rows = initial_rows df, navigated = []\<rparr>"
  assume starts: "chrome_starts w" and f: "f < ?m"
    and fails: "detail_page w (Link (rows df ! f)) = None"
    and before: "\<forall>j<f. detail_page w (Link (rows df ! j)) \<noteq> None"
  have m: "?m \<le> length (rows df)" by (rule effective_max_jobs_le)
  have run: "extract_job_descriptions w df cap = enrich_from w ?m 0 ?st"
    using starts by (simp add: extract_job_descriptions_def Let_def)
  have links: "Link (initial_rows df ! j) = Link (rows df ! j)" if "j \<le> f" for j
    using that f m by (simp add: initial_rows_facts)
  have "navigated (enrich_from w ?m 0 ?st) =
           navigated ?st @ map (\<lambda>j. Link (result_rows ?st ! j)) [0..<(if f < ?m then Suc f else ?m)]
       \<and> length (result_rows (enrich_from w ?m 0 ?st)) = length (result_rows ?st)
       \<and> (\<forall>j. 0 \<le> j \<and> j < f \<longrightarrow>
             result_rows (enrich_from w ?m 0 ?st) ! j = enriched_row w (result_rows ?st ! j))
       \<and> (\<forall>j. j < 0 \<or> f \<le> j \<longrightarrow>
             result_rows (enrich_from w ?m 0 ?st) ! j = result_rows ?st ! j)"
  proof (rule enrich_from_run)
    show "0 \<le> f" by simp
    show "f \<le> ?m" using f by simp
    show "?m \<le> length (result_rows ?st)" using m by (simp add: initial_rows_facts)
    show "\<forall>j. 0 \<le> j \<and> j < f \<longrightarrow> detail_page w (Link (result_rows ?st ! j)) \<noteq> None"
      using before links by simp
    show "f = ?m \<or> detail_page w (Link (result_rows ?st ! f)) = None"
      using fails links by simp
  qed
  moreover have "map (\<lambda>j. Link (initial_rows df ! j)) [0..<Suc f] =
                 map (\<lambda>j. Link (rows df ! j)) [0..<Suc f]"
    by (rule map_cong) (auto simp: links)
  ultimately show "navigated (extract_job_descriptions w df cap) =
        map (\<lambda>j. Link (rows df ! j)) [0..<Suc f]
   \<and> length (result_rows (extract_job_descriptions w df cap)) = length (rows df)
   \<and> (\<forall>j<f. result_rows (extract_job_descriptions w df cap) ! j =
               enriched_row w (initial_rows df ! j))
   \<and> (\<forall>j. f \<le> j \<and> j < length (rows df) \<longrightarrow>
         result_rows (extract_job_descriptions w df cap) ! j = initial_rows df ! j)"
    unfolding run using f by (simp add: initial_rows_facts del: upt_Suc)
qed

lemmas two_rows_eval = two_rows_def plain_row_def effective_max_jobs_def initial_rows_def

theorem enrichment_stops_at_first_failure_witness:
  "navigated (extract_job_descriptions first_page_fails two_rows (Some 5)) = [''/job/1'']
   \<and> result_rows (extract_job_descriptions first_page_fails two_rows (Some 5)) ! 1 =
       plain_row ''SRE'' ''/job/2''"
  using enrichment_stops_at_first_failure [of first_page_fails 0 two_rows "Some 5"]
  by (simp add: two_rows_eval first_page_fails_def)




lemma scenario_scan: "scan_headings scenario_strongs = (''p1'' @ [CHR 0x0A] @ ''p2'', ''p3'')"
  by (simp add: scan_headings_def scan_step_def is_min_heading_def is_pref_heading_def
      get_section_text_def scenario_strongs_def scenario_doc_def strong_at_def heading_def para_def
      string_eval)

text \<open>
  Claim C4 on the code: with two records, the first detail page failing to open, the
  second record's page is never navigated to and its minimum qualifications stay empty,
  although that page yields p1 and p2 when it is read.
\<close>

theorem batch_abort_counterexample:
  "detail_page first_page_fails ''/job/1'' = None
   \<and> ''/job/2'' \<notin> set (navigated (extract_job_descriptions first_page_fails two_rows (Some 5)))
   \<and> MinimumQualifications
        (result_rows (extract_job_descriptions first_page_fails two_rows (Some 5)) ! 1) = []
   \<and> MinimumQualifications
        (result_rows (extract_job_descriptions both_pages_load two_rows (Some 5)) ! 1) =
       ''p1'' @ [CHR 0x0A] @ ''p2''"
  by (simp add: extract_job_descriptions_def two_rows_eval first_page_fails_def
      both_pages_load_def enrich_from.simps scenario_scan Let_def)


section \<open>The keyword filter of the InfiniteScroll run\<close>

lemma py_in_sublist: "py_in sub s = sublist sub s"
  by (induction s) (auto simp: sublist_Cons_right)

text \<open>
  Claim C7. For every non-empty search keyword, every record that the InfiniteScroll
  strategy returns has the keyword as a case-insensitive substring of its title,
  whatever the search box is: absent, used, or failing.
\<close>

theorem keyword_filter_on_every_path:
  "search_keyword \<noteq> [] \<longrightarrow>
     (\<forall>box. \<forall>job \<in> set (scrape_zscaler_jobs (site\<lparr>search_input := box\<rparr>) search_keyword max_pages).
        sublist (lower search_keyword) (lower (Title job)))"
  by (auto simp: scrape_zscaler_jobs_def truthy_def Let_def py_in_sublist split: sum.splits)

lemma scenario_scroll_ok:
  "scroll_to_load_all (Some 100) scenario_driver 20 =
     Inr \<lparr>iterations = 5, stall_count = 3, found = 8\<rparr>"
  by (simp add: scroll_to_load_all_def scenario_driver_def scenario_readings_def
      scroll_loop.simps eval_nat_numeral)

lemmas listing_eval = handle_pagination_def scenario_site_def scenario_page1_def
  scenario_page2_def current_page_def find_next_button_def enabled_next_def
  extract_job_listings_zscaler_def extract_one_def card_def strip_def is_space_def truthy_def
  is_duplicate_def extract_location_def extract_department_def Let_def

lemma scenario_runs:
  "map Title (scrape_zscaler_jobs no_box_site ''swe'' 3) = [''SWE II'', ''SWE'', ''SWE II'']"
  "map Title (scrape_zscaler_jobs box_site ''swe'' 3) = [''SWE II'']"
  by (simp_all add: scrape_zscaler_jobs_def no_box_site_def box_site_def after_search_def
      scenario_scroll_ok listing_eval lower_def lower_char_def)

theorem keyword_filter_on_every_path_witness:
  "map Title (scrape_zscaler_jobs no_box_site ''swe'' 3) = [''SWE II'', ''SWE'', ''SWE II'']
   \<and> map Title (scrape_zscaler_jobs box_site ''swe'' 3) = [''SWE II'']
   \<and> list_all (\<lambda>job. sublist (lower ''swe'') (lower (Title job)))
         (scrape_zscaler_jobs no_box_site ''swe'' 3)
   \<and> list_all (\<lambda>job. sublist (lower ''swe'') (lower (Title job)))
         (scrape_zscaler_jobs box_site ''swe'' 3)"
proof -
  have a: "no_box_site\<lparr>search_input := Absent\<rparr> = no_box_site"
    and b: "box_site\<lparr>search_input := Usable\<rparr> = box_site"
    by (simp_all add: no_box_site_def box_site_def)
  have ne: "''swe'' \<noteq> []" by simp
  from keyword_filter_on_every_path [of "''swe''" no_box_site 3] ne a
  have "\<forall>job \<in> set (scrape_zscaler_jobs no_box_site ''swe'' 3).
         sublist (lower ''swe'') (lower (Title job))"
    by metis
  moreover from keyword_filter_on_every_path [of "''swe''" box_site 3] ne b
  have "\<forall>job \<in> set (scrape_zscaler_jobs box_site ''swe'' 3).
         sublist (lower ''swe'') (lower (Title job))"
    by metis
  ultimately show ?thesis using scenario_runs by (simp add: list_all_iff)
qed

section \<open>Card fields and sentinels\<close>

lemma or_sentinel_nonempty: "sentinel \<noteq> [] \<Longrightarrow> or_sentinel v sentinel \<noteq> []"
  by (simp add: or_sentinel_def truthy_def split: option.splits)

text \<open>
  Claim C2 on the code: a card element with no anchor and no job id gets the three
  text sentinels, but its \<open>url\<close> is Python's \<^verbatim>\<open>None\<close>, not the sentinel Unknown URL,
  which line 270 assigns only when reading the job id raises.
\<close>

theorem url_sentinel_missing:
  "extract_card bare_element =
     \<lparr>title = ''Unknown Title'', location = ''Unknown Location'', days_ago = ''Unknown Date'',
      company = ''Microsoft'', url = None\<rparr>
   \<and> extract_job_cards list_item_page =
     [\<lparr>title = ''Unknown Title'', location = ''Unknown Location'', days_ago = ''Unknown Date'',
       company = ''Microsoft'', url = None\<rparr>]"
  by (simp add: extract_card_def bare_element_def extract_url_def or_sentinel_def
      title_selectors_def location_selectors_def date_selectors_def extract_job_cards_def
      list_item_page_def card_selectors_def)

section \<open>The Paginated strategy: failed navigation and the next-page control\<close>

text \<open>
  Claim C8. In the Paginated strategy, when the driver starts, the search is submitted
  and the bounded wait for the first recognizable card container times out, navigation
  reports failure, no card extraction is attempted, and \<^verbatim>\<open>scrape_jobs\<close> returns the empty
  list to its caller.
\<close>

theorem results_timeout_gives_empty_run:
  "chrome_driver_starts site \<and> site_opens site \<and> keyword_input_found site
   \<and> search_button_clickable site
   \<and> css (ms_current (result_pages site)) results_selector = [] \<longrightarrow>
   navigate_to_search_results site = Inr False
   \<and> scrape_jobs site max_pages = \<lparr>jobs = [], extract_calls = 0\<rparr>"
  by (simp add: navigate_to_search_results_def scrape_jobs_def)

theorem results_timeout_gives_empty_run_witness:
  "navigate_to_search_results list_item_site = Inr False
   \<and> scrape_jobs list_item_site 3 = \<lparr>jobs = [], extract_calls = 0\<rparr>
   \<and> extract_job_cards (ms_current (result_pages list_item_site)) \<noteq> []"
  using results_timeout_gives_empty_run [of list_item_site 3]
  by (simp add: list_item_site_def list_item_page_def ms_current_def results_selector_def
      extract_job_cards_def card_selectors_def)









end
